theory Spec2Isabelle
  imports Main "HOL-Library.AList"
begin

section \<open>The message entity of \<^verbatim>\<open>nsq/message.py\<close>\<close>

text \<open>
  The development embeds the class \<^verbatim>\<open>Message\<close> of \<^verbatim>\<open>nsq/message.py\<close>. A method that
  mutates \<^verbatim>\<open>self\<close> becomes a function from the world before the call to an outcome and
  the world after it. A world holds the attributes of the one message instance, the
  store of timer objects the message has created (a \<^verbatim>\<open>PeriodicCallback\<close> is a mutable
  object that the message and the scheduler both reference, so it lives at an address)
  and the trace of the notifications triggered so far. A Python exception is an
  outcome \<open>Raised e\<close>; the world returned with it is the one the exception leaves behind.
  The \<^verbatim>\<open>assert\<close> statements are taken as enabled (the interpreter is not run with
  \<^verbatim>\<open>-O\<close>), and integers are Python 3 integers.
\<close>

subsection \<open>Values, errors, outcomes\<close>

text \<open>
  The connection object handed to \<^verbatim>\<open>_set_timeout\<close>. The source reads two attributes
  of it, \<^verbatim>\<open>msg_timeout\<close> and \<^verbatim>\<open>io_loop\<close>, and calls its \<^verbatim>\<open>trigger\<close>; \<open>conn_id\<close> stands
  for the identity of the object.
\<close>

record async_conn =
  conn_id :: nat
  msg_timeout :: int
  io_loop :: nat

text \<open>
  The Python values that occur as keyword arguments. \<open>PyMessage\<close> is a reference to the
  message instance (\<^verbatim>\<open>self\<close>), \<open>PyConn c\<close> a reference to a connection, \<open>PyObject n\<close> any
  other object (a float, a list, ...), which is not an instance of \<^verbatim>\<open>int\<close>.
\<close>

datatype pyval =
    PyNone
  | PyBool bool
  | PyInt int
  | PyStr string
  | PyObject nat
  | PyMessage
  | PyConn async_conn

datatype error = AssertionError | TypeError | AttributeError

datatype 'a outcome = Returned 'a | Raised error

text \<open>
  Keyword arguments: a Python dict, in insertion order. A caller can pass any name as a
  keyword (\<^verbatim>\<open>m.requeue(**{'self': 1})\<close>), also the name of a parameter of the method
  called; Python then raises \<^verbatim>\<open>TypeError\<close> (an argument given twice).
\<close>

type_synonym kwargs = "(string \<times> pyval) list"

text \<open>
  \<^verbatim>\<open>isinstance(v, int)\<close> together with the integer \<open>v\<close> then denotes: \<^verbatim>\<open>bool\<close> is a
  subclass of \<^verbatim>\<open>int\<close> in Python, with \<^verbatim>\<open>True == 1\<close> and \<^verbatim>\<open>False == 0\<close>.
\<close>

fun int_instance :: "pyval \<Rightarrow> int option" where
  "int_instance (PyInt d) = Some d"
| "int_instance (PyBool b) = Some (if b then 1 else 0)"
| "int_instance _ = None"

subsection \<open>Timer objects\<close>

text \<open>
  Modelled from the spec: the scheduling facility (section 6: "run this callback
  periodically every N time units, return a handle with \<^verbatim>\<open>stop()\<close> and \<^verbatim>\<open>isRunning()\<close>"),
  which the source takes from \<^verbatim>\<open>tornado.ioloop.PeriodicCallback\<close>. A handle records what
  it was constructed with (the connection its callback closes over, the interval, the
  loop) and whether it is running; a new handle is not running until \<^verbatim>\<open>start()\<close>. The
  facility is taken to accept the interval of every connection it is given.
\<close>

record periodic_callback =
  cb_conn :: async_conn
  callback_time :: int
  cb_io_loop :: nat
  running :: bool

text \<open>
  The store of timer objects: the address of a handle is its index. A message only
  ever holds an address it has allocated; an address outside the store reads as a
  handle that is not running and \<open>stop\<close>, \<open>start\<close> leave the store as it is there.
\<close>

definition is_running :: "nat \<Rightarrow> periodic_callback list \<Rightarrow> bool" where
  "is_running a ts = (a < length ts \<and> running (ts ! a))"

definition stop :: "nat \<Rightarrow> periodic_callback list \<Rightarrow> periodic_callback list" where
  "stop a ts = (if a < length ts then ts[a := (ts ! a)\<lparr>running := False\<rparr>] else ts)"

definition start :: "nat \<Rightarrow> periodic_callback list \<Rightarrow> periodic_callback list" where
  "start a ts = (if a < length ts then ts[a := (ts ! a)\<lparr>running := True\<rparr>] else ts)"

subsection \<open>The message, the notifications, the world\<close>

text \<open>
  The attributes of a \<^verbatim>\<open>Message\<close>. \<open>u_async_enabled\<close> and \<open>u_has_responded\<close> are the
  source's \<^verbatim>\<open>_async_enabled\<close> and \<^verbatim>\<open>_has_responded\<close> (a name cannot start with an
  underscore here), \<open>msg_id\<close> is \<^verbatim>\<open>id\<close>. \<open>timeout\<close> is \<^verbatim>\<open>None\<close> or the address of a timer
  object, \<open>conn\<close> is \<^verbatim>\<open>None\<close> or a connection.
\<close>

record message =
  u_async_enabled :: bool
  u_has_responded :: bool
  msg_id :: string
  body :: string
  timestamp :: int
  attempts :: int
  timeout :: "nat option"
  conn :: "async_conn option"

text \<open>
  Modelled from the spec: the event names of \<^verbatim>\<open>nsq/event.py\<close>, which is not among the
  sources (section 6 lists the four events this entity triggers).
\<close>

datatype event = FINISH | REQUEUE | TOUCH | MESSAGE_TIMEOUT

text \<open>The object \<^verbatim>\<open>trigger\<close> is called on.\<close>

datatype target = OnMessage | OnConn async_conn

text \<open>
  One call of \<^verbatim>\<open>trigger\<close>: the object it was called on, the event, the keyword context,
  and what a handler invoked at that moment can observe of the message: its attributes
  and the timer store as they are when the notification is triggered.
\<close>

record notification =
  n_target :: target
  n_event :: event
  n_kwargs :: kwargs
  n_msg :: message
  n_timers :: "periodic_callback list"

record world =
  msg :: message
  timers :: "periodic_callback list"
  events :: "notification list"

text \<open>
  Modelled from the spec: \<^verbatim>\<open>EventedMixin.trigger\<close> of \<^verbatim>\<open>nsq/event.py\<close>, which is not
  among the sources. Section 4.1: \<^verbatim>\<open>trigger(eventName, **context)\<close> synchronously invokes
  every handler registered for the event, passing the triggering instance and the
  keyword context. The handlers belong to collaborators outside the entity; the model
  records the invocation, in order, and takes a handler to observe the message without
  calling back into it. The method is \<^verbatim>\<open>def trigger(self, name, *args, **kwargs)\<close>: its
  event parameter is called \<^verbatim>\<open>name\<close>, so a call that passes the event positionally and
  a keyword \<^verbatim>\<open>name\<close> as well raises \<^verbatim>\<open>TypeError\<close> before any handler runs.
\<close>

definition trigger :: "target \<Rightarrow> event \<Rightarrow> kwargs \<Rightarrow> world \<Rightarrow> world" where
  "trigger tgt ev kw w =
     w\<lparr>events := events w @
        [\<lparr>n_target = tgt, n_event = ev, n_kwargs = kw, n_msg = msg w, n_timers = timers w\<rparr>]\<rparr>"

subsection \<open>Construction\<close>

text \<open>\<^verbatim>\<open>Message.__init__\<close> (lines 52-62).\<close>

definition Message_init :: "string \<Rightarrow> string \<Rightarrow> int \<Rightarrow> int \<Rightarrow> message" where
  "Message_init i b ts n =
     \<lparr>u_async_enabled = False, u_has_responded = False, msg_id = i, body = b,
      timestamp = ts, attempts = n, timeout = None, conn = None\<rparr>"

text \<open>The world of a message that has just been constructed: no timer, no notification.\<close>

definition new_world :: "message \<Rightarrow> world" where
  "new_world m = \<lparr>msg = m, timers = [], events = []\<rparr>"

subsection \<open>The timeout subsystem\<close>

text \<open>
  \<^verbatim>\<open>_clear_timeout\<close> (lines 84-86). A \<^verbatim>\<open>PeriodicCallback\<close> object is always truthy, so
  \<^verbatim>\<open>if self.timeout:\<close> tests \<^verbatim>\<open>self.timeout is not None\<close>.
\<close>

definition u_clear_timeout :: "world \<Rightarrow> world" where
  "u_clear_timeout w =
     (case timeout (msg w) of
        None \<Rightarrow> w
      | Some a \<Rightarrow> w\<lparr>timers := stop a (timers w)\<rparr>)"

text \<open>
  \<^verbatim>\<open>_set_timeout\<close> (lines 64-82). The argument is \<open>None\<close> when the caller passes Python's
  \<^verbatim>\<open>None\<close> (as \<^verbatim>\<open>touch\<close> does when \<^verbatim>\<open>self.conn\<close> is \<^verbatim>\<open>None\<close>): then
  \<^verbatim>\<open>async_conn.msg_timeout\<close> raises \<^verbatim>\<open>AttributeError\<close>, after \<^verbatim>\<open>self.conn\<close> has been assigned
  and the old timer stopped. Otherwise a new timer object is allocated, stored in
  \<^verbatim>\<open>self.timeout\<close> and started.
\<close>

definition u_set_timeout :: "async_conn option \<Rightarrow> world \<Rightarrow> unit outcome \<times> world" where
  "u_set_timeout ac w =
     (let w1 = w\<lparr>msg := (msg w)\<lparr>conn := ac\<rparr>\<rparr>;
          w2 = u_clear_timeout w1
      in case ac of
           None \<Rightarrow> (Raised AttributeError, w2)
         | Some c \<Rightarrow>
             (let a = length (timers w2);
                  w3 = w2\<lparr>timers := timers w2 @
                         [\<lparr>cb_conn = c, callback_time = msg_timeout c,
                           cb_io_loop = io_loop c, running = False\<rparr>]\<rparr>;
                  w4 = w3\<lparr>msg := (msg w3)\<lparr>timeout := Some a\<rparr>\<rparr>
              in (Returned (), w4\<lparr>timers := start a (timers w4)\<rparr>)))"

text \<open>
  The closure \<^verbatim>\<open>callback\<close> of \<^verbatim>\<open>_set_timeout\<close> (lines 74-77), for the connection \<open>c\<close> it
  closes over. Inside the closure \<^verbatim>\<open>self\<close> is the message, so both keyword arguments of
  the \<^verbatim>\<open>trigger\<close> call, \<^verbatim>\<open>conn=self\<close> and \<^verbatim>\<open>message=self\<close>, are the message.
  \<^verbatim>\<open>self.timeout\<close> is read when the callback runs: it is the timer the message holds
  then.
\<close>

definition callback :: "async_conn \<Rightarrow> world \<Rightarrow> unit outcome \<times> world" where
  "callback c w =
     (let w1 = trigger (OnConn c) MESSAGE_TIMEOUT
                 [(''conn'', PyMessage), (''message'', PyMessage)] w
      in case timeout (msg w1) of
           None \<Rightarrow> (Raised AttributeError, w1)
         | Some a \<Rightarrow>
             if is_running a (timers w1) then (Returned (), u_clear_timeout w1)
             else (Returned (), w1))"

text \<open>
  Modelled from the spec: one firing of the timer at address \<open>a\<close> by the scheduling
  facility (section 6), which runs the callback of a handle only while the handle is
  running. The result is the callback's.
\<close>

definition fire :: "nat \<Rightarrow> world \<Rightarrow> unit outcome \<times> world" where
  "fire a w =
     (if is_running a (timers w) then callback (cb_conn (timers w ! a)) w
      else (Returned (), w))"

text \<open>\<^verbatim>\<open>is_alive\<close> (lines 88-94).\<close>

definition is_alive :: "world \<Rightarrow> bool outcome \<times> world" where
  "is_alive w =
     (case timeout (msg w) of
        None \<Rightarrow> (Raised AssertionError, w)
      | Some a \<Rightarrow> (Returned (is_running a (timers w)), w))"

subsection \<open>The disposition methods\<close>

text \<open>\<^verbatim>\<open>enable_async\<close>, \<^verbatim>\<open>is_async\<close>, \<^verbatim>\<open>has_responded\<close> (lines 96-115).\<close>

definition enable_async :: "world \<Rightarrow> unit outcome \<times> world" where
  "enable_async w = (Returned (), w\<lparr>msg := (msg w)\<lparr>u_async_enabled := True\<rparr>\<rparr>)"

definition is_async :: "world \<Rightarrow> bool outcome \<times> world" where
  "is_async w = (Returned (u_async_enabled (msg w)), w)"

definition has_responded :: "world \<Rightarrow> bool outcome \<times> world" where
  "has_responded w = (Returned (u_has_responded (msg w)), w)"

text \<open>\<^verbatim>\<open>finish\<close> (lines 117-125).\<close>

definition finish :: "world \<Rightarrow> unit outcome \<times> world" where
  "finish w =
     (if u_has_responded (msg w) then (Raised AssertionError, w)
      else
        (let w1 = w\<lparr>msg := (msg w)\<lparr>u_has_responded := True\<rparr>\<rparr>;
             w2 = u_clear_timeout w1
         in (Returned (), trigger OnMessage FINISH [(''message'', PyMessage)] w2)))"

text \<open>
  The normalization at the head of \<^verbatim>\<open>requeue\<close> (lines 143-144): when \<^verbatim>\<open>delay\<close> is
  present, is an instance of \<^verbatim>\<open>int\<close> and is positive, the entry \<^verbatim>\<open>time_ms\<close> is set to
  \<^verbatim>\<open>delay * 1000\<close> (replacing the value of an entry of that name, added last
  otherwise); the dictionary is left alone in every other case.
\<close>

definition normalize_delay :: "kwargs \<Rightarrow> kwargs" where
  "normalize_delay kw =
     (case map_of kw ''delay'' of
        None \<Rightarrow> kw
      | Some v \<Rightarrow>
          (case int_instance v of
             None \<Rightarrow> kw
           | Some d \<Rightarrow> if d > 0 then AList.update ''time_ms'' (PyInt (d * 1000)) kw else kw))"

text \<open>
  The keywords that the call at line 149, \<^verbatim>\<open>self.trigger(event.REQUEUE, message=self,
  **kwargs)\<close>, cannot take from the caller: \<^verbatim>\<open>message\<close>, which the call passes itself,
  and \<^verbatim>\<open>name\<close>, the parameter of \<^verbatim>\<open>trigger\<close> that receives the event.
\<close>

definition clashes :: "kwargs \<Rightarrow> bool" where
  "clashes kw =
     (''message'' \<in> set (map fst kw) \<or> ''name'' \<in> set (map fst kw))"

text \<open>
  \<^verbatim>\<open>requeue\<close> (lines 127-149). A keyword \<^verbatim>\<open>self\<close> is refused by
  \<^verbatim>\<open>def requeue(self, **kwargs)\<close> itself (line 127): \<^verbatim>\<open>TypeError\<close>, before the body runs
  and so before the assertion. In the body the normalization runs before the assertion;
  it changes only the dictionary of this call. The call of \<^verbatim>\<open>trigger\<close> at line 149 raises
  \<^verbatim>\<open>TypeError\<close> when the keywords contain \<^verbatim>\<open>message\<close> or \<^verbatim>\<open>name\<close>; by then the
  message is marked as responded and its timer is stopped, and nothing is triggered.
\<close>

definition requeue :: "kwargs \<Rightarrow> world \<Rightarrow> unit outcome \<times> world" where
  "requeue kw w =
     (if ''self'' \<in> set (map fst kw) then (Raised TypeError, w)
      else
        (let kw' = normalize_delay kw
         in if u_has_responded (msg w) then (Raised AssertionError, w)
            else
              (let w1 = w\<lparr>msg := (msg w)\<lparr>u_has_responded := True\<rparr>\<rparr>;
                   w2 = u_clear_timeout w1
               in if clashes kw' then (Raised TypeError, w2)
                  else (Returned (),
                        trigger OnMessage REQUEUE ((''message'', PyMessage) # kw') w2))))"

text \<open>\<^verbatim>\<open>touch\<close> (lines 151-158).\<close>

definition touch :: "world \<Rightarrow> unit outcome \<times> world" where
  "touch w =
     (if u_has_responded (msg w) then (Raised AssertionError, w)
      else
        (case timeout (msg w) of
           None \<Rightarrow> (Returned (), trigger OnMessage TOUCH [(''message'', PyMessage)] w)
         | Some a \<Rightarrow>
             (case u_set_timeout (conn (msg w)) w of
                (Raised e, w1) \<Rightarrow> (Raised e, w1)
              | (Returned u, w1) \<Rightarrow>
                  (Returned (), trigger OnMessage TOUCH [(''message'', PyMessage)] w1))))"

subsection \<open>Sequences of calls\<close>

text \<open>
  Everything that can happen to a message: a call of one of its methods, or the
  scheduler firing one of the timers (\<open>Fire a\<close>).
\<close>

datatype call =
    Finish
  | Requeue kwargs
  | Touch
  | EnableAsync
  | IsAsync
  | HasResponded
  | IsAlive
  | SetTimeout "async_conn option"
  | ClearTimeout
  | Fire nat

definition returning :: "('a \<Rightarrow> pyval) \<Rightarrow> 'a outcome \<times> world \<Rightarrow> pyval outcome \<times> world" where
  "returning f r =
     (case r of
        (Returned v, w) \<Rightarrow> (Returned (f v), w)
      | (Raised e, w) \<Rightarrow> (Raised e, w))"

fun step :: "call \<Rightarrow> world \<Rightarrow> pyval outcome \<times> world" where
  "step Finish w = returning (\<lambda>u. PyNone) (finish w)"
| "step (Requeue kw) w = returning (\<lambda>u. PyNone) (requeue kw w)"
| "step Touch w = returning (\<lambda>u. PyNone) (touch w)"
| "step EnableAsync w = returning (\<lambda>u. PyNone) (enable_async w)"
| "step IsAsync w = returning PyBool (is_async w)"
| "step HasResponded w = returning PyBool (has_responded w)"
| "step IsAlive w = returning PyBool (is_alive w)"
| "step (SetTimeout ac) w = returning (\<lambda>u. PyNone) (u_set_timeout ac w)"
| "step ClearTimeout w = (Returned PyNone, u_clear_timeout w)"
| "step (Fire a) w = returning (\<lambda>u. PyNone) (fire a w)"

text \<open>
  A sequence of calls, each on the world the one before it left; a caller may catch an
  exception and go on, so the run continues after a call that raised. The result lists
  the outcome of every call.
\<close>

fun run :: "call list \<Rightarrow> world \<Rightarrow> pyval outcome list \<times> world" where
  "run [] w = ([], w)"
| "run (c # cs) w =
     (let (r, w1) = step c w; (rs, w2) = run cs w1 in (r # rs, w2))"

text \<open>The two terminal dispositions.\<close>

fun disposition :: "call \<Rightarrow> bool" where
  "disposition Finish = True"
| "disposition (Requeue kw) = True"
| "disposition c = False"

fun succeeded :: "call \<times> pyval outcome \<Rightarrow> bool" where
  "succeeded (c, Returned v) = disposition c"
| "succeeded (c, Raised e) = False"

text \<open>
  The calls Python refuses before the method body runs: \<^verbatim>\<open>requeue\<close> with a keyword
  \<^verbatim>\<open>self\<close>. Such a call raises \<^verbatim>\<open>TypeError\<close> whatever the state of the message, and
  never reaches the assertion.
\<close>

fun refused :: "call \<Rightarrow> bool" where
  "refused (Requeue kw) = (''self'' \<in> set (map fst kw))"
| "refused c = False"

text \<open>
  What a call of \<^verbatim>\<open>finish()\<close> or \<^verbatim>\<open>requeue()\<close> raises on a message that has responded.
\<close>

definition rejection :: "call \<Rightarrow> error" where
  "rejection c = (if refused c then TypeError else AssertionError)"

text \<open>
  The keywords a caller can pass to \<^verbatim>\<open>requeue\<close> and have forwarded to the handlers: none
  of them is \<^verbatim>\<open>self\<close>, \<^verbatim>\<open>message\<close> or \<^verbatim>\<open>name\<close>.
\<close>

definition forwardable :: "kwargs \<Rightarrow> bool" where
  "forwardable kw =
     (''self'' \<notin> set (map fst kw) \<and> ''message'' \<notin> set (map fst kw) \<and>
      ''name'' \<notin> set (map fst kw))"

text \<open>The four fields a message is constructed from.\<close>

definition identity :: "message \<Rightarrow> string \<times> string \<times> int \<times> int" where
  "identity m = (msg_id m, body m, timestamp m, attempts m)"

text \<open>
  The calls that arm a timer on a message that has none: \<^verbatim>\<open>_set_timeout\<close> with a
  connection. (\<^verbatim>\<open>touch\<close> arms only a message that already holds a timer.)
\<close>

fun arms :: "call \<Rightarrow> bool" where
  "arms (SetTimeout (Some c)) = True"
| "arms c = False"

text \<open>The calls that can arm the timer again: \<^verbatim>\<open>_set_timeout\<close> and \<^verbatim>\<open>touch\<close>.\<close>

fun rearms :: "call \<Rightarrow> bool" where
  "rearms (SetTimeout ac) = True"
| "rearms Touch = True"
| "rearms c = False"

text \<open>The number of \<^verbatim>\<open>MESSAGE_TIMEOUT\<close> notifications triggered so far.\<close>

definition timeouts :: "world \<Rightarrow> nat" where
  "timeouts w = length (filter (\<lambda>n. n_event n = MESSAGE_TIMEOUT) (events w))"

text \<open>
  The invariant of the timer store: a timer that is running is the one the message
  holds. (\<^verbatim>\<open>_set_timeout\<close> stops the timer it replaces.)
\<close>

definition only_held_runs :: "world \<Rightarrow> bool" where
  "only_held_runs w = (\<forall>a. is_running a (timers w) \<longrightarrow> timeout (msg w) = Some a)"

text \<open>The number of firings the timer the message holds can still produce: one while it runs.\<close>

definition pending :: "world \<Rightarrow> nat" where
  "pending w =
     (case timeout (msg w) of
        None \<Rightarrow> 0
      | Some a \<Rightarrow> if is_running a (timers w) then 1 else 0)"

subsection \<open>Sample inputs\<close>

definition sample_conn :: async_conn where
  "sample_conn = \<lparr>conn_id = 1, msg_timeout = 60000, io_loop = 0\<rparr>"

text \<open>A message as the reader constructs it, before any call.\<close>

definition fresh :: world where
  "fresh = new_world (Message_init ''0a1b2c3d4e5f6071'' ''payload'' 1500000000 1)"

text \<open>The same message after the connection has armed its timeout.\<close>

definition armed :: world where
  "armed = snd (u_set_timeout (Some sample_conn) fresh)"

text \<open>The armed message after \<^verbatim>\<open>finish()\<close>.\<close>

definition finished :: world where
  "finished = snd (finish armed)"

section \<open>Basic facts\<close>

lemmas method_defs =
  finish_def requeue_def touch_def enable_async_def is_async_def has_responded_def
  is_alive_def u_set_timeout_def u_clear_timeout_def fire_def callback_def trigger_def
  returning_def

lemma run_Cons:
  "run (c # cs) w =
     (fst (step c w) # fst (run cs (snd (step c w))), snd (run cs (snd (step c w))))"
  by (simp add: split_beta Let_def)

declare run.simps(2) [simp del]

lemma is_running_stop: "is_running b (stop a ts) = (b \<noteq> a \<and> is_running b ts)"
  by (auto simp: is_running_def stop_def nth_list_update)

lemma length_stop: "length (stop a ts) = length ts"
  by (simp add: stop_def)

lemma start_fresh: "start (length ts) (ts @ [t]) = ts @ [t\<lparr>running := True\<rparr>]"
  by (simp add: start_def)

lemma is_running_append:
  "is_running b (ts @ [t]) = (if b = length ts then running t else is_running b ts)"
  by (auto simp: is_running_def nth_append)

lemma armed_eq:
  "armed =
     \<lparr>msg = \<lparr>u_async_enabled = False, u_has_responded = False,
             msg_id = ''0a1b2c3d4e5f6071'', body = ''payload'', timestamp = 1500000000,
             attempts = 1, timeout = Some 0, conn = Some sample_conn\<rparr>,
      timers = [\<lparr>cb_conn = sample_conn, callback_time = 60000, cb_io_loop = 0,
                 running = True\<rparr>],
      events = []\<rparr>"
  by (simp add: armed_def fresh_def new_world_def Message_init_def u_set_timeout_def
      u_clear_timeout_def start_def Let_def sample_conn_def)

section \<open>The response-once guard\<close>

lemma step_responded_mono:
  "u_has_responded (msg w) \<Longrightarrow> u_has_responded (msg (snd (step c w)))"
  by (cases c) (auto simp: method_defs Let_def split: option.splits)

lemma step_succeeded_responded:
  "succeeded (c, fst (step c w)) \<Longrightarrow> u_has_responded (msg (snd (step c w)))"
  by (cases c) (auto simp: method_defs Let_def split: option.splits if_splits)

lemma step_responded_fails:
  "u_has_responded (msg w) \<Longrightarrow> disposition c \<Longrightarrow> fst (step c w) = Raised (rejection c)"
  by (cases c) (auto simp: method_defs rejection_def Let_def)

lemma run_responded_fails:
  "u_has_responded (msg w) \<Longrightarrow> j < length cs \<Longrightarrow> disposition (cs ! j) \<Longrightarrow>
   fst (run cs w) ! j = Raised (rejection (cs ! j))"
proof (induction cs arbitrary: w j)
  case Nil
  then show ?case by simp
next
  case (Cons c cs)
  show ?case
  proof (cases j)
    case 0
    with Cons.prems show ?thesis by (simp add: run_Cons step_responded_fails)
  next
    case (Suc k)
    with Cons.prems Cons.IH [of "snd (step c w)" k] show ?thesis
      by (simp add: run_Cons step_responded_mono)
  qed
qed

lemma run_responded_no_success:
  "u_has_responded (msg w) \<Longrightarrow> filter succeeded (zip cs (fst (run cs w))) = []"
proof (induction cs arbitrary: w)
  case Nil
  then show ?case by simp
next
  case (Cons c cs)
  have "\<not> succeeded (c, fst (step c w))"
  proof (cases "disposition c")
    case True
    with Cons.prems have "fst (step c w) = Raised (rejection c)"
      by (simp add: step_responded_fails)
    then show ?thesis by simp
  next
    case False
    then show ?thesis by (cases "fst (step c w)") simp_all
  qed
  with Cons.IH [of "snd (step c w)"] Cons.prems show ?case
    by (simp add: run_Cons step_responded_mono)
qed

lemma run_success_count: "length (filter succeeded (zip cs (fst (run cs w)))) \<le> 1"
proof (induction cs arbitrary: w)
  case Nil
  show ?case by simp
next
  case (Cons c cs)
  show ?case
  proof (cases "succeeded (c, fst (step c w))")
    case True
    then have "u_has_responded (msg (snd (step c w)))" by (rule step_succeeded_responded)
    then have "filter succeeded (zip cs (fst (run cs (snd (step c w))))) = []"
      by (rule run_responded_no_success)
    with True show ?thesis by (simp add: run_Cons)
  next
    case False
    with Cons.IH [of "snd (step c w)"] show ?thesis by (simp add: run_Cons)
  qed
qed

lemma run_after_success:
  "i < j \<Longrightarrow> j < length cs \<Longrightarrow> succeeded (cs ! i, fst (run cs w) ! i) \<Longrightarrow>
   disposition (cs ! j) \<Longrightarrow> fst (run cs w) ! j = Raised (rejection (cs ! j))"
proof (induction cs arbitrary: w i j)
  case Nil
  then show ?case by simp
next
  case (Cons c cs)
  from Cons.prems obtain k where j: "j = Suc k" by (cases j) auto
  show ?case
  proof (cases i)
    case 0
    with Cons.prems have "u_has_responded (msg (snd (step c w)))"
      by (simp add: run_Cons step_succeeded_responded)
    with Cons.prems j show ?thesis
      by (simp add: run_Cons run_responded_fails)
  next
    case (Suc i')
    with Cons.prems j Cons.IH [of i' k "snd (step c w)"] show ?thesis
      by (simp add: run_Cons)
  qed
qed

text \<open>
  C1. In every sequence of calls on a message, from any state of it, at most one call of
  \<^verbatim>\<open>finish()\<close> or \<^verbatim>\<open>requeue()\<close> succeeds; every call of either that comes after a
  successful one raises: \<^verbatim>\<open>AssertionError\<close>, the failed contract check, or \<^verbatim>\<open>TypeError\<close>
  when it is a \<^verbatim>\<open>requeue\<close> with a keyword \<^verbatim>\<open>self\<close>, which Python refuses before the check
  is reached; and once \<^verbatim>\<open>_has_responded\<close> is true no call of either succeeds, each raises
  in the same way.
\<close>

theorem at_most_one_disposition:
  "length (filter succeeded (zip cs (fst (run cs w)))) \<le> 1 \<and>
   (\<forall>i j. i < j \<and> j < length cs \<and> succeeded (cs ! i, fst (run cs w) ! i) \<and>
          disposition (cs ! j) \<longrightarrow>
      fst (run cs w) ! j = Raised (if refused (cs ! j) then TypeError else AssertionError)) \<and>
   (u_has_responded (msg w) \<longrightarrow>
      (\<forall>j < length cs. disposition (cs ! j) \<longrightarrow>
         fst (run cs w) ! j = Raised (if refused (cs ! j) then TypeError else AssertionError)))"
  using run_success_count [of cs w] run_after_success [of _ _ cs w]
    run_responded_fails [of w _ cs]
  unfolding rejection_def by blast

theorem at_most_one_disposition_witness:
  "fst (run [Touch, Finish, Requeue [(''delay'', PyInt 5)], Finish] armed) =
     [Returned PyNone, Returned PyNone, Raised AssertionError, Raised AssertionError] \<and>
   length (filter succeeded
     (zip [Touch, Finish, Requeue [(''delay'', PyInt 5)], Finish]
        (fst (run [Touch, Finish, Requeue [(''delay'', PyInt 5)], Finish] armed)))) \<le> 1 \<and>
   u_has_responded (msg finished) \<and>
   fst (run [Requeue [], Touch, Finish, Requeue [(''self'', PyNone)]] finished) ! 0 =
     Raised AssertionError \<and>
   fst (run [Requeue [], Touch, Finish, Requeue [(''self'', PyNone)]] finished) ! 2 =
     Raised AssertionError \<and>
   fst (run [Requeue [], Touch, Finish, Requeue [(''self'', PyNone)]] finished) ! 3 =
     Raised TypeError"
proof -
  let ?cs = "[Touch, Finish, Requeue [(''delay'', PyInt 5)], Finish]"
  let ?ds = "[Requeue [], Touch, Finish, Requeue [(''self'', PyNone)]]"
  have r: "fst (run ?cs armed) =
     [Returned PyNone, Returned PyNone, Raised AssertionError, Raised AssertionError]"
    by code_simp
  have f: "u_has_responded (msg finished)"
    by code_simp
  from at_most_one_disposition [of ?cs armed]
  have c: "length (filter succeeded (zip ?cs (fst (run ?cs armed)))) \<le> 1"
    by (rule conjunct1)
  from at_most_one_disposition [of ?ds finished] f
  have a: "\<forall>j < length ?ds. disposition (?ds ! j) \<longrightarrow>
     fst (run ?ds finished) ! j = Raised (if refused (?ds ! j) then TypeError else AssertionError)"
    by blast
  from a [rule_format, of 0] a [rule_format, of 2] a [rule_format, of 3]
  have "fst (run ?ds finished) ! 0 = Raised AssertionError"
    and "fst (run ?ds finished) ! 2 = Raised AssertionError"
    and "fst (run ?ds finished) ! 3 = Raised TypeError"
    by simp_all
  with r c f show ?thesis by blast
qed

text \<open>
  C10. \<^verbatim>\<open>finish()\<close> and \<^verbatim>\<open>requeue()\<close> called on a message that has responded raise
  \<^verbatim>\<open>AssertionError\<close> and leave the world as it was: the flag, the timer handle and the timer
  it refers to, the stored connection, the async flag, and the trace of notifications
  (no \<^verbatim>\<open>FINISH\<close> or \<^verbatim>\<open>REQUEUE\<close> is triggered). A \<^verbatim>\<open>requeue\<close> with a keyword \<^verbatim>\<open>self\<close>
  does not reach the assertion: it raises \<^verbatim>\<open>TypeError\<close>, and leaves the world as it was
  just the same.
\<close>

theorem contract_failure_atomic:
  "u_has_responded (msg w) \<Longrightarrow>
   finish w = (Raised AssertionError, w) \<and>
   requeue kw w =
     (Raised (if ''self'' \<in> set (map fst kw) then TypeError else AssertionError), w)"
  by (simp add: finish_def requeue_def Let_def)

theorem contract_failure_atomic_witness:
  "u_has_responded (msg finished) \<and>
   finish finished = (Raised AssertionError, finished) \<and>
   requeue [(''delay'', PyInt 5)] finished = (Raised AssertionError, finished) \<and>
   requeue [(''name'', PyStr ''x'')] finished = (Raised AssertionError, finished) \<and>
   requeue [(''self'', PyNone)] finished = (Raised TypeError, finished)"
proof -
  have f: "u_has_responded (msg finished)"
    by code_simp
  from contract_failure_atomic [OF f, of "[(''delay'', PyInt 5)]"]
    contract_failure_atomic [OF f, of "[(''name'', PyStr ''x'')]"]
    contract_failure_atomic [OF f, of "[(''self'', PyNone)]"] f
  show ?thesis
    by simp
qed

section \<open>The fields a message is constructed from\<close>

lemma step_identity: "identity (msg (snd (step c w))) = identity (msg w)"
  by (cases c) (auto simp: identity_def method_defs Let_def split: option.splits)

lemma run_identity: "identity (msg (snd (run cs w))) = identity (msg w)"
  by (induction cs arbitrary: w) (simp_all add: run_Cons step_identity)

text \<open>
  C8. The constructor stores \<^verbatim>\<open>id\<close>, \<^verbatim>\<open>body\<close>, \<^verbatim>\<open>timestamp\<close> and \<^verbatim>\<open>attempts\<close> as they are
  given, and no operation changes them: not \<^verbatim>\<open>finish\<close>, \<^verbatim>\<open>requeue\<close>, \<^verbatim>\<open>touch\<close>,
  \<^verbatim>\<open>enable_async\<close>, \<^verbatim>\<open>_set_timeout\<close>, \<^verbatim>\<open>_clear_timeout\<close>, \<^verbatim>\<open>is_alive\<close>, \<^verbatim>\<open>is_async\<close>,
  \<^verbatim>\<open>has_responded\<close> nor a firing of the timer, whether the call returns or raises, nor any
  sequence of them.
\<close>

theorem identity_fields_immutable:
  "identity (Message_init i b ts n) = (i, b, ts, n) \<and>
   identity (msg (snd (finish w))) = identity (msg w) \<and>
   identity (msg (snd (requeue kw w))) = identity (msg w) \<and>
   identity (msg (snd (touch w))) = identity (msg w) \<and>
   identity (msg (snd (enable_async w))) = identity (msg w) \<and>
   identity (msg (snd (u_set_timeout ac w))) = identity (msg w) \<and>
   identity (msg (u_clear_timeout w)) = identity (msg w) \<and>
   identity (msg (snd (is_alive w))) = identity (msg w) \<and>
   identity (msg (snd (is_async w))) = identity (msg w) \<and>
   identity (msg (snd (has_responded w))) = identity (msg w) \<and>
   identity (msg (snd (fire a w))) = identity (msg w) \<and>
   identity (msg (snd (run cs w))) = identity (msg w) \<and>
   identity (msg (snd (run cs (new_world (Message_init i b ts n))))) = (i, b, ts, n)"
proof -
  have "identity (msg (snd (touch w))) = identity (msg w)"
    by (cases "conn (msg w)")
       (simp_all add: identity_def method_defs Let_def split: option.splits)
  moreover have "identity (msg (snd (u_set_timeout ac w))) = identity (msg w)"
    by (cases ac) (simp_all add: identity_def method_defs Let_def split: option.splits)
  moreover have "identity (msg (snd (requeue kw w))) = identity (msg w)"
    by (simp add: identity_def method_defs Let_def split: option.splits)
  moreover have "identity (msg (snd (fire a w))) = identity (msg w)"
    by (simp add: identity_def method_defs Let_def split: option.splits)
  moreover have "identity (msg (snd (finish w))) = identity (msg w)"
    by (simp add: identity_def method_defs Let_def split: option.splits)
  moreover have "identity (msg (snd (is_alive w))) = identity (msg w)"
    by (simp add: identity_def is_alive_def split: option.splits)
  moreover have "identity (msg (u_clear_timeout w)) = identity (msg w)"
    by (simp add: identity_def u_clear_timeout_def split: option.splits)
  moreover have "identity (msg (snd (run cs (new_world (Message_init i b ts n))))) = (i, b, ts, n)"
    by (simp add: run_identity) (simp add: identity_def new_world_def Message_init_def)
  ultimately show ?thesis
    by (simp add: run_identity)
       (simp add: identity_def Message_init_def enable_async_def is_async_def has_responded_def)
qed

theorem identity_fields_immutable_witness:
  "identity (msg (snd (run [EnableAsync, Touch, Fire 0, Requeue [(''delay'', PyInt 5)], Finish]
      armed))) = (''0a1b2c3d4e5f6071'', ''payload'', 1500000000, 1)"
proof -
  have "identity (msg armed) = (''0a1b2c3d4e5f6071'', ''payload'', 1500000000, 1)"
    by code_simp
  with identity_fields_immutable
    [of "[]" "[]" 0 0 armed "[]" None 0
      "[EnableAsync, Touch, Fire 0, Requeue [(''delay'', PyInt 5)], Finish]"]
  show ?thesis by simp
qed

section \<open>finish\<close>

lemma not_running_stop: "\<not> is_running a (stop a ts)"
  by (simp add: is_running_stop)

text \<open>
  C2. \<^verbatim>\<open>finish()\<close> on a message that has responded raises \<^verbatim>\<open>AssertionError\<close> and changes
  nothing. On a message that has not, it returns, having set \<^verbatim>\<open>_has_responded\<close>, stopped
  the timer the message holds (if any) and then triggered \<^verbatim>\<open>FINISH\<close> on the message with
  the message as context: the notification is the last of the trace, and a handler
  invoked by it already sees the flag set and the timer stopped. Afterwards \<^verbatim>\<open>is_alive()\<close>
  on a message holding a timer returns false.
\<close>

theorem finish_effects:
  "(u_has_responded (msg w) \<longrightarrow> finish w = (Raised AssertionError, w)) \<and>
   (\<not> u_has_responded (msg w) \<longrightarrow>
      finish w =
        (Returned (),
         \<lparr>msg = (msg w)\<lparr>u_has_responded := True\<rparr>,
          timers = (case timeout (msg w) of None \<Rightarrow> timers w | Some a \<Rightarrow> stop a (timers w)),
          events = events w @
            [\<lparr>n_target = OnMessage, n_event = FINISH, n_kwargs = [(''message'', PyMessage)],
              n_msg = (msg w)\<lparr>u_has_responded := True\<rparr>,
              n_timers =
                (case timeout (msg w) of None \<Rightarrow> timers w | Some a \<Rightarrow> stop a (timers w))\<rparr>]\<rparr>) \<and>
      (\<forall>a. timeout (msg w) = Some a \<longrightarrow>
         \<not> is_running a (n_timers (last (events (snd (finish w))))) \<and>
         \<not> is_running a (timers (snd (finish w))) \<and>
         is_alive (snd (finish w)) = (Returned False, snd (finish w))))"
  by (auto simp: finish_def u_clear_timeout_def trigger_def is_alive_def Let_def
      not_running_stop split: option.splits)

theorem finish_effects_witness:
  "\<not> u_has_responded (msg armed) \<and> timeout (msg armed) = Some 0 \<and>
   is_alive armed = (Returned True, armed) \<and>
   fst (finish armed) = Returned () \<and>
   u_has_responded (msg finished) \<and>
   is_alive finished = (Returned False, finished) \<and>
   n_event (last (events finished)) = FINISH \<and>
   u_has_responded (n_msg (last (events finished))) \<and>
   \<not> is_running 0 (n_timers (last (events finished))) \<and>
   finish finished = (Raised AssertionError, finished)"
proof -
  have a: "\<not> u_has_responded (msg armed)" "timeout (msg armed) = Some 0"
    "is_alive armed = (Returned True, armed)"
    by code_simp+
  have f: "u_has_responded (msg finished)"
    by code_simp
  note unanswered = finish_effects [of armed, THEN conjunct2, rule_format, OF a(1)]
  note stopped = unanswered [THEN conjunct2, rule_format, OF a(2)]
  from unanswered [THEN conjunct1]
  have "fst (finish armed) = Returned ()"
    and "n_event (last (events (snd (finish armed)))) = FINISH"
    and "u_has_responded (n_msg (last (events (snd (finish armed)))))"
    by simp_all
  moreover from stopped
  have "is_alive (snd (finish armed)) = (Returned False, snd (finish armed))"
    and "\<not> is_running 0 (n_timers (last (events (snd (finish armed)))))"
    by blast+
  moreover from finish_effects [of finished] f
  have "finish finished = (Raised AssertionError, finished)"
    by blast
  ultimately show ?thesis
    using a f by (simp add: finished_def)
qed

section \<open>is_alive\<close>

lemma step_timeout_None:
  "timeout (msg w) = None \<Longrightarrow> \<not> arms c \<Longrightarrow> timeout (msg (snd (step c w))) = None"
  by (cases c rule: arms.cases) (auto simp: method_defs Let_def split: option.splits)

lemma step_timeout_Some:
  "timeout (msg w) \<noteq> None \<Longrightarrow> timeout (msg (snd (step c w))) \<noteq> None"
  by (cases c rule: arms.cases) (auto simp: method_defs Let_def split: option.splits)

lemma run_timeout_None:
  "timeout (msg w) = None \<Longrightarrow> \<forall>c \<in> set cs. \<not> arms c \<Longrightarrow>
   timeout (msg (snd (run cs w))) = None"
proof (induction cs arbitrary: w)
  case Nil
  then show ?case by simp
next
  case (Cons c cs)
  from Cons.prems have "timeout (msg (snd (step c w))) = None"
    by (simp add: step_timeout_None)
  with Cons.IH [of "snd (step c w)"] Cons.prems show ?case
    by (simp add: run_Cons)
qed

lemma run_timeout_Some:
  "timeout (msg w) \<noteq> None \<Longrightarrow> timeout (msg (snd (run cs w))) \<noteq> None"
proof (induction cs arbitrary: w)
  case Nil
  then show ?case by simp
next
  case (Cons c cs)
  from Cons.prems have "timeout (msg (snd (step c w))) \<noteq> None"
    by (rule step_timeout_Some)
  with Cons.IH [of "snd (step c w)"] show ?case
    by (simp add: run_Cons)
qed

text \<open>
  C6. On a message on which no timer was ever armed (a new message, after any calls
  other than \<^verbatim>\<open>_set_timeout\<close> with a connection) \<^verbatim>\<open>is_alive()\<close> raises \<^verbatim>\<open>AssertionError\<close>
  and returns no value. Once \<^verbatim>\<open>_set_timeout\<close> has armed a timer, and whatever is called
  afterwards, \<^verbatim>\<open>is_alive()\<close> returns whether the timer the message holds is running.
\<close>

theorem is_alive_contract:
  "((\<forall>c \<in> set cs. \<not> arms c) \<longrightarrow>
      is_alive (snd (run cs (new_world (Message_init i b ts n)))) =
        (Raised AssertionError, snd (run cs (new_world (Message_init i b ts n))))) \<and>
   (\<exists>a. timeout (msg (snd (run cs (snd (u_set_timeout (Some c) w))))) = Some a \<and>
        is_alive (snd (run cs (snd (u_set_timeout (Some c) w)))) =
          (Returned (is_running a (timers (snd (run cs (snd (u_set_timeout (Some c) w)))))),
           snd (run cs (snd (u_set_timeout (Some c) w)))))"
proof (intro conjI impI)
  assume h: "\<forall>c \<in> set cs. \<not> arms c"
  have "timeout (msg (new_world (Message_init i b ts n))) = None"
    by (simp add: new_world_def Message_init_def)
  then have "timeout (msg (snd (run cs (new_world (Message_init i b ts n))))) = None"
    using h by (rule run_timeout_None)
  then show "is_alive (snd (run cs (new_world (Message_init i b ts n)))) =
        (Raised AssertionError, snd (run cs (new_world (Message_init i b ts n))))"
    by (simp add: is_alive_def)
next
  let ?w = "snd (run cs (snd (u_set_timeout (Some c) w)))"
  have "timeout (msg (snd (u_set_timeout (Some c) w))) \<noteq> None"
    by (simp add: u_set_timeout_def Let_def)
  then have "timeout (msg ?w) \<noteq> None"
    by (rule run_timeout_Some)
  then obtain a where a: "timeout (msg ?w) = Some a" by auto
  then have "is_alive ?w = (Returned (is_running a (timers ?w)), ?w)"
    by (simp add: is_alive_def)
  with a show "\<exists>a. timeout (msg ?w) = Some a \<and>
      is_alive ?w = (Returned (is_running a (timers ?w)), ?w)"
    by blast
qed

theorem is_alive_contract_witness:
  "fst (is_alive (snd (run [EnableAsync, Touch, Fire 0, ClearTimeout] fresh))) =
     Raised AssertionError \<and>
   fst (is_alive (snd (run [] (snd (u_set_timeout (Some sample_conn) fresh))))) =
     Returned True \<and>
   fst (is_alive (snd (run [Fire 0] (snd (u_set_timeout (Some sample_conn) fresh))))) =
     Returned False"
proof -
  let ?cs = "[EnableAsync, Touch, Fire 0, ClearTimeout]"
  have "\<forall>c \<in> set ?cs. \<not> arms c" by simp
  with is_alive_contract
    [of ?cs "''0a1b2c3d4e5f6071''" "''payload''" 1500000000 1 sample_conn fresh]
  have 1: "fst (is_alive (snd (run ?cs fresh))) = Raised AssertionError"
    by (simp add: fresh_def)
  from is_alive_contract [of "[]" "[]" "[]" 0 0 sample_conn fresh]
  obtain a where "timeout (msg (snd (run [] (snd (u_set_timeout (Some sample_conn) fresh))))) = Some a"
    and "is_alive (snd (run [] (snd (u_set_timeout (Some sample_conn) fresh)))) =
      (Returned (is_running a (timers (snd (run [] (snd (u_set_timeout (Some sample_conn) fresh)))))),
       snd (run [] (snd (u_set_timeout (Some sample_conn) fresh))))"
    by blast
  moreover have "timeout (msg (snd (run [] (snd (u_set_timeout (Some sample_conn) fresh))))) = Some 0"
    and "is_running 0 (timers (snd (run [] (snd (u_set_timeout (Some sample_conn) fresh)))))"
    by code_simp+
  ultimately have 2:
    "fst (is_alive (snd (run [] (snd (u_set_timeout (Some sample_conn) fresh))))) = Returned True"
    by simp
  from is_alive_contract [of "[Fire 0]" "[]" "[]" 0 0 sample_conn fresh]
  obtain a where
    "timeout (msg (snd (run [Fire 0] (snd (u_set_timeout (Some sample_conn) fresh))))) = Some a"
    and "is_alive (snd (run [Fire 0] (snd (u_set_timeout (Some sample_conn) fresh)))) =
      (Returned (is_running a
         (timers (snd (run [Fire 0] (snd (u_set_timeout (Some sample_conn) fresh)))))),
       snd (run [Fire 0] (snd (u_set_timeout (Some sample_conn) fresh))))"
    by blast
  moreover have
    "timeout (msg (snd (run [Fire 0] (snd (u_set_timeout (Some sample_conn) fresh))))) = Some 0"
    and "\<not> is_running 0
      (timers (snd (run [Fire 0] (snd (u_set_timeout (Some sample_conn) fresh)))))"
    by code_simp+
  ultimately have 3:
    "fst (is_alive (snd (run [Fire 0] (snd (u_set_timeout (Some sample_conn) fresh))))) =
       Returned False"
    by simp
  from 1 2 3 show ?thesis by blast
qed

section \<open>requeue\<close>

lemma key_normalize_delay:
  "k \<noteq> ''time_ms'' \<Longrightarrow> k \<notin> set (map fst kw) \<Longrightarrow> k \<notin> set (map fst (normalize_delay kw))"
  by (simp add: normalize_delay_def dom_update split: option.splits)

lemma forwardable_no_clash: "forwardable kw \<Longrightarrow> \<not> clashes (normalize_delay kw)"
  using key_normalize_delay [of "''message''" kw] key_normalize_delay [of "''name''" kw]
  by (simp add: forwardable_def clashes_def)

lemma requeue_pending:
  "\<not> u_has_responded (msg w) \<Longrightarrow> forwardable kw \<Longrightarrow>
   requeue kw w =
     (Returned (),
      \<lparr>msg = (msg w)\<lparr>u_has_responded := True\<rparr>,
       timers = (case timeout (msg w) of None \<Rightarrow> timers w | Some a \<Rightarrow> stop a (timers w)),
       events = events w @
         [\<lparr>n_target = OnMessage, n_event = REQUEUE,
           n_kwargs = (''message'', PyMessage) # normalize_delay kw,
           n_msg = (msg w)\<lparr>u_has_responded := True\<rparr>,
           n_timers =
             (case timeout (msg w) of None \<Rightarrow> timers w | Some a \<Rightarrow> stop a (timers w))\<rparr>]\<rparr>)"
proof -
  assume r: "\<not> u_has_responded (msg w)" and f: "forwardable kw"
  from f have s: "''self'' \<notin> set (map fst kw)" by (simp add: forwardable_def)
  from f have c: "\<not> clashes (normalize_delay kw)" by (rule forwardable_no_clash)
  from r s c show ?thesis
    by (simp add: requeue_def u_clear_timeout_def trigger_def Let_def split: option.splits)
qed

lemma requeue_refused:
  "''self'' \<in> set (map fst kw) \<Longrightarrow> requeue kw w = (Raised TypeError, w)"
  by (simp add: requeue_def)

lemma requeue_clash:
  "\<not> u_has_responded (msg w) \<Longrightarrow> ''self'' \<notin> set (map fst kw) \<Longrightarrow>
   clashes (normalize_delay kw) \<Longrightarrow>
   fst (requeue kw w) = Raised TypeError \<and> events (snd (requeue kw w)) = events w \<and>
   u_has_responded (msg (snd (requeue kw w)))"
  by (simp add: requeue_def u_clear_timeout_def Let_def split: option.splits)

text \<open>
  C3. \<^verbatim>\<open>requeue(**kwargs)\<close> on a message that has not responded, with a \<^verbatim>\<open>delay\<close> among
  the keywords and none of the keywords named \<^verbatim>\<open>self\<close>, \<^verbatim>\<open>message\<close> or \<^verbatim>\<open>name\<close> (a call
  with one of these raises \<^verbatim>\<open>TypeError\<close> and triggers nothing), returns and triggers
  \<^verbatim>\<open>REQUEUE\<close> on the message. If \<^verbatim>\<open>delay\<close> is a positive integer (an instance of
  \<^verbatim>\<open>int\<close> with a value above 0), the context has \<^verbatim>\<open>time_ms == delay * 1000\<close>. If
  \<^verbatim>\<open>delay\<close> is not a positive integer (-1, 0, any other integer that is not positive, or
  a value that is no integer), the context is the message followed by the keywords
  exactly as they were passed: no \<^verbatim>\<open>time_ms\<close> is added and \<^verbatim>\<open>delay\<close> is unchanged.
\<close>

theorem requeue_delay_normalization:
  "\<not> u_has_responded (msg w) \<and> forwardable kw \<and>
   map_of kw ''delay'' = Some v \<longrightarrow>
     (\<exists>n. fst (requeue kw w) = Returned () \<and>
          events (snd (requeue kw w)) = events w @ [n] \<and>
          n_target n = OnMessage \<and> n_event n = REQUEUE \<and>
          (\<forall>d. int_instance v = Some d \<and> d > 0 \<longrightarrow>
             map_of (n_kwargs n) ''time_ms'' = Some (PyInt (d * 1000))) \<and>
          ((\<forall>d. int_instance v = Some d \<longrightarrow> d \<le> 0) \<longrightarrow>
             n_kwargs n = (''message'', PyMessage) # kw))"
proof (intro impI, elim conjE)
  assume h: "\<not> u_has_responded (msg w)" "forwardable kw"
    and v: "map_of kw ''delay'' = Some v"
  have pos: "\<forall>d. int_instance v = Some d \<and> d > 0 \<longrightarrow>
      map_of ((''message'', PyMessage) # normalize_delay kw) ''time_ms'' =
        Some (PyInt (d * 1000))"
    using v by (auto simp: normalize_delay_def update_conv')
  have neg: "(\<forall>d. int_instance v = Some d \<longrightarrow> d \<le> 0) \<longrightarrow> normalize_delay kw = kw"
    using v by (auto simp: normalize_delay_def split: option.splits)
  from pos neg show "\<exists>n. fst (requeue kw w) = Returned () \<and>
          events (snd (requeue kw w)) = events w @ [n] \<and>
          n_target n = OnMessage \<and> n_event n = REQUEUE \<and>
          (\<forall>d. int_instance v = Some d \<and> d > 0 \<longrightarrow>
             map_of (n_kwargs n) ''time_ms'' = Some (PyInt (d * 1000))) \<and>
          ((\<forall>d. int_instance v = Some d \<longrightarrow> d \<le> 0) \<longrightarrow>
             n_kwargs n = (''message'', PyMessage) # kw)"
    by (simp add: requeue_pending [OF h])
qed

theorem requeue_delay_normalization_witness:
  "map_of (n_kwargs (last (events (snd (requeue [(''delay'', PyInt 5)] armed))))) ''time_ms'' =
     Some (PyInt 5000) \<and>
   n_kwargs (last (events (snd (requeue [(''delay'', PyInt (- 1))] armed)))) =
     [(''message'', PyMessage), (''delay'', PyInt (- 1))] \<and>
   n_kwargs (last (events (snd (requeue [(''delay'', PyInt 0)] armed)))) =
     [(''message'', PyMessage), (''delay'', PyInt 0)] \<and>
   \<not> forwardable [(''delay'', PyInt 5), (''name'', PyStr ''x'')] \<and>
   fst (requeue [(''delay'', PyInt 5), (''name'', PyStr ''x'')] armed) = Raised TypeError \<and>
   events (snd (requeue [(''delay'', PyInt 5), (''name'', PyStr ''x'')] armed)) = []"
proof -
  have a: "\<not> u_has_responded (msg armed)"
    by code_simp
  have fw: "forwardable [(''delay'', PyInt 5)]" "forwardable [(''delay'', PyInt (- 1))]"
    "forwardable [(''delay'', PyInt 0)]"
    by (simp_all add: forwardable_def)
  have 4: "\<not> forwardable [(''delay'', PyInt 5), (''name'', PyStr ''x'')]"
    "fst (requeue [(''delay'', PyInt 5), (''name'', PyStr ''x'')] armed) = Raised TypeError"
    "events (snd (requeue [(''delay'', PyInt 5), (''name'', PyStr ''x'')] armed)) = []"
    by code_simp+
  from requeue_delay_normalization [of armed "[(''delay'', PyInt 5)]" "PyInt 5", rule_format]
    a fw(1)
  obtain n where "events (snd (requeue [(''delay'', PyInt 5)] armed)) = events armed @ [n]"
    and "map_of (n_kwargs n) ''time_ms'' = Some (PyInt 5000)"
    by auto
  then have 1: "map_of (n_kwargs (last (events (snd (requeue [(''delay'', PyInt 5)] armed)))))
      ''time_ms'' = Some (PyInt 5000)"
    by simp
  from requeue_delay_normalization
    [of armed "[(''delay'', PyInt (- 1))]" "PyInt (- 1)", rule_format] a fw(2)
  obtain n where "events (snd (requeue [(''delay'', PyInt (- 1))] armed)) = events armed @ [n]"
    and "n_kwargs n = [(''message'', PyMessage), (''delay'', PyInt (- 1))]"
    by auto
  then have 2: "n_kwargs (last (events (snd (requeue [(''delay'', PyInt (- 1))] armed)))) =
      [(''message'', PyMessage), (''delay'', PyInt (- 1))]"
    by simp
  from requeue_delay_normalization [of armed "[(''delay'', PyInt 0)]" "PyInt 0", rule_format]
    a fw(3)
  obtain n where "events (snd (requeue [(''delay'', PyInt 0)] armed)) = events armed @ [n]"
    and "n_kwargs n = [(''message'', PyMessage), (''delay'', PyInt 0)]"
    by auto
  then have 3: "n_kwargs (last (events (snd (requeue [(''delay'', PyInt 0)] armed)))) =
      [(''message'', PyMessage), (''delay'', PyInt 0)]"
    by simp
  from 1 2 3 4 show ?thesis by blast
qed

text \<open>
  C9. \<^verbatim>\<open>requeue(**kwargs)\<close> on a message that has not responded, with \<^verbatim>\<open>delay\<close> a
  positive integer and none of the keywords named \<^verbatim>\<open>self\<close>, \<^verbatim>\<open>message\<close> or \<^verbatim>\<open>name\<close> (a
  call with one of these raises \<^verbatim>\<open>TypeError\<close> and triggers nothing), triggers \<^verbatim>\<open>REQUEUE\<close>
  with a context that holds both the \<^verbatim>\<open>delay\<close> entry, with the value that was passed
  (seconds), and the \<^verbatim>\<open>time_ms\<close> entry: the keywords are changed at \<^verbatim>\<open>time_ms\<close> only.
\<close>

theorem requeue_keeps_delay:
  "\<not> u_has_responded (msg w) \<and> forwardable kw \<and>
   map_of kw ''delay'' = Some (PyInt d) \<and> d > 0 \<longrightarrow>
     (\<exists>n. fst (requeue kw w) = Returned () \<and>
          events (snd (requeue kw w)) = events w @ [n] \<and> n_event n = REQUEUE \<and>
          n_kwargs n =
            (''message'', PyMessage) # AList.update ''time_ms'' (PyInt (d * 1000)) kw \<and>
          map_of (n_kwargs n) ''delay'' = Some (PyInt d) \<and>
          map_of (n_kwargs n) ''time_ms'' = Some (PyInt (d * 1000)))"
proof (intro impI, elim conjE)
  assume h: "\<not> u_has_responded (msg w)" "forwardable kw"
    and v: "map_of kw ''delay'' = Some (PyInt d)" and d: "d > 0"
  from v d have n: "normalize_delay kw = AList.update ''time_ms'' (PyInt (d * 1000)) kw"
    by (simp add: normalize_delay_def)
  from v show "\<exists>n. fst (requeue kw w) = Returned () \<and>
          events (snd (requeue kw w)) = events w @ [n] \<and> n_event n = REQUEUE \<and>
          n_kwargs n =
            (''message'', PyMessage) # AList.update ''time_ms'' (PyInt (d * 1000)) kw \<and>
          map_of (n_kwargs n) ''delay'' = Some (PyInt d) \<and>
          map_of (n_kwargs n) ''time_ms'' = Some (PyInt (d * 1000))"
    by (simp add: requeue_pending [OF h] n update_conv')
qed

theorem requeue_keeps_delay_witness:
  "n_kwargs (last (events (snd
      (requeue [(''backoff'', PyBool False), (''delay'', PyInt 5)] armed)))) =
     [(''message'', PyMessage), (''backoff'', PyBool False), (''delay'', PyInt 5),
      (''time_ms'', PyInt 5000)]"
proof -
  have a: "\<not> u_has_responded (msg armed)"
    by code_simp
  have fw: "forwardable [(''backoff'', PyBool False), (''delay'', PyInt 5)]"
    by (simp add: forwardable_def)
  from requeue_keeps_delay
    [of armed "[(''backoff'', PyBool False), (''delay'', PyInt 5)]" 5, rule_format] a fw
  obtain n where
    "events (snd (requeue [(''backoff'', PyBool False), (''delay'', PyInt 5)] armed)) =
       events armed @ [n]"
    and "n_kwargs n = (''message'', PyMessage) #
       AList.update ''time_ms'' (PyInt (5 * 1000))
         [(''backoff'', PyBool False), (''delay'', PyInt 5)]"
    by auto
  then show ?thesis by simp
qed

section \<open>touch\<close>

lemma set_timeout_Some:
  "u_set_timeout (Some c) w =
     (Returned (),
      \<lparr>msg = (msg w)\<lparr>timeout := Some (length (timers w)), conn := Some c\<rparr>,
       timers = (case timeout (msg w) of None \<Rightarrow> timers w | Some a \<Rightarrow> stop a (timers w)) @
         [\<lparr>cb_conn = c, callback_time = msg_timeout c, cb_io_loop = io_loop c, running = True\<rparr>],
       events = events w\<rparr>)"
  by (simp add: u_set_timeout_def u_clear_timeout_def Let_def length_stop start_fresh
      split: option.splits)

lemma step_conn_stored:
  "timeout (msg w) \<noteq> None \<longrightarrow> conn (msg w) \<noteq> None \<Longrightarrow> c \<noteq> SetTimeout None \<Longrightarrow>
   timeout (msg (snd (step c w))) \<noteq> None \<longrightarrow> conn (msg (snd (step c w))) \<noteq> None"
  by (cases c) (auto simp: method_defs Let_def split: option.splits)

lemma run_conn_stored:
  "timeout (msg w) \<noteq> None \<longrightarrow> conn (msg w) \<noteq> None \<Longrightarrow> \<forall>c \<in> set cs. c \<noteq> SetTimeout None \<Longrightarrow>
   timeout (msg (snd (run cs w))) \<noteq> None \<longrightarrow> conn (msg (snd (run cs w))) \<noteq> None"
proof (induction cs arbitrary: w)
  case Nil
  then show ?case by simp
next
  case (Cons c cs)
  from Cons.prems
  have "timeout (msg (snd (step c w))) \<noteq> None \<longrightarrow> conn (msg (snd (step c w))) \<noteq> None"
    by (intro step_conn_stored) simp_all
  with Cons.IH [of "snd (step c w)"] Cons.prems show ?case
    by (simp add: run_Cons)
qed

text \<open>
  C7. \<^verbatim>\<open>touch()\<close> on a message that has responded raises \<^verbatim>\<open>AssertionError\<close> and changes
  nothing, so \<^verbatim>\<open>finish()\<close> followed by \<^verbatim>\<open>touch()\<close> fails. On a message that has not
  responded it leaves \<^verbatim>\<open>_has_responded\<close> false, so \<^verbatim>\<open>touch()\<close> followed by \<^verbatim>\<open>finish()\<close>
  succeeds. Its effects there: with no timer ever armed, only the \<^verbatim>\<open>TOUCH\<close> notification
  on the message, with the message as context; with a timer held and a connection
  stored, the held timer is stopped, a new one on the stored connection is started and
  held (what \<^verbatim>\<open>_set_timeout\<close> does with that connection), and then \<^verbatim>\<open>TOUCH\<close> is triggered.
  A message that holds a timer has a connection stored, in every state reached from
  construction by calls that never hand \<^verbatim>\<open>None\<close> to \<^verbatim>\<open>_set_timeout\<close>.
\<close>

theorem touch_effects:
  "(u_has_responded (msg w) \<longrightarrow> touch w = (Raised AssertionError, w)) \<and>
   fst (touch (snd (finish w))) = Raised AssertionError \<and>
   ((\<forall>x \<in> set cs. x \<noteq> SetTimeout None) \<and>
    timeout (msg (snd (run cs (new_world (Message_init i b ts n))))) \<noteq> None \<longrightarrow>
      conn (msg (snd (run cs (new_world (Message_init i b ts n))))) \<noteq> None) \<and>
   (\<not> u_has_responded (msg w) \<longrightarrow>
      \<not> u_has_responded (msg (snd (touch w))) \<and> fst (finish (snd (touch w))) = Returned ()) \<and>
   (\<not> u_has_responded (msg w) \<and> timeout (msg w) = None \<longrightarrow>
      touch w =
        (Returned (),
         w\<lparr>events := events w @
           [\<lparr>n_target = OnMessage, n_event = TOUCH, n_kwargs = [(''message'', PyMessage)],
             n_msg = msg w, n_timers = timers w\<rparr>]\<rparr>)) \<and>
   (\<not> u_has_responded (msg w) \<and> timeout (msg w) = Some a \<and> conn (msg w) = Some c \<longrightarrow>
      touch w =
        (Returned (),
         \<lparr>msg = (msg w)\<lparr>timeout := Some (length (timers w))\<rparr>,
          timers = stop a (timers w) @
            [\<lparr>cb_conn = c, callback_time = msg_timeout c, cb_io_loop = io_loop c,
              running = True\<rparr>],
          events = events w @
            [\<lparr>n_target = OnMessage, n_event = TOUCH, n_kwargs = [(''message'', PyMessage)],
              n_msg = (msg w)\<lparr>timeout := Some (length (timers w))\<rparr>,
              n_timers = stop a (timers w) @
                [\<lparr>cb_conn = c, callback_time = msg_timeout c, cb_io_loop = io_loop c,
                  running = True\<rparr>]\<rparr>]\<rparr>) \<and>
      touch w = (Returned (), trigger OnMessage TOUCH [(''message'', PyMessage)]
                   (snd (u_set_timeout (Some c) w))))"
proof (intro conjI impI)
  show "fst (touch (snd (finish w))) = Raised AssertionError"
    by (simp add: touch_def finish_def u_clear_timeout_def trigger_def Let_def
        split: option.splits)
next
  assume h: "(\<forall>x \<in> set cs. x \<noteq> SetTimeout None) \<and>
    timeout (msg (snd (run cs (new_world (Message_init i b ts n))))) \<noteq> None"
  have "timeout (msg (new_world (Message_init i b ts n))) \<noteq> None \<longrightarrow>
      conn (msg (new_world (Message_init i b ts n))) \<noteq> None"
    by (simp add: new_world_def Message_init_def)
  with h show "conn (msg (snd (run cs (new_world (Message_init i b ts n))))) \<noteq> None"
    using run_conn_stored [of "new_world (Message_init i b ts n)" cs] by blast
next
  assume "\<not> u_has_responded (msg w)"
  then show "\<not> u_has_responded (msg (snd (touch w)))"
    by (cases "conn (msg w)")
       (simp_all add: touch_def u_set_timeout_def u_clear_timeout_def trigger_def Let_def
         split: option.splits)
  then show "fst (finish (snd (touch w))) = Returned ()"
    by (simp add: finish_def Let_def)
next
  assume "\<not> u_has_responded (msg w) \<and> timeout (msg w) = Some a \<and> conn (msg w) = Some c"
  then show "touch w =
        (Returned (),
         \<lparr>msg = (msg w)\<lparr>timeout := Some (length (timers w))\<rparr>,
          timers = stop a (timers w) @
            [\<lparr>cb_conn = c, callback_time = msg_timeout c, cb_io_loop = io_loop c,
              running = True\<rparr>],
          events = events w @
            [\<lparr>n_target = OnMessage, n_event = TOUCH, n_kwargs = [(''message'', PyMessage)],
              n_msg = (msg w)\<lparr>timeout := Some (length (timers w))\<rparr>,
              n_timers = stop a (timers w) @
                [\<lparr>cb_conn = c, callback_time = msg_timeout c, cb_io_loop = io_loop c,
                  running = True\<rparr>]\<rparr>]\<rparr>)"
    by (simp add: touch_def set_timeout_Some trigger_def)
next
  assume "\<not> u_has_responded (msg w) \<and> timeout (msg w) = Some a \<and> conn (msg w) = Some c"
  then show "touch w = (Returned (), trigger OnMessage TOUCH [(''message'', PyMessage)]
                   (snd (u_set_timeout (Some c) w)))"
    by (simp add: touch_def set_timeout_Some)
qed (simp_all add: touch_def trigger_def)

theorem touch_effects_witness:
  "fst (touch finished) = Raised AssertionError \<and>
   fst (touch armed) = Returned () \<and>
   fst (finish (snd (touch armed))) = Returned () \<and>
   timeout (msg (snd (touch armed))) = Some 1 \<and>
   timers (snd (touch armed)) =
     [\<lparr>cb_conn = sample_conn, callback_time = 60000, cb_io_loop = 0, running = False\<rparr>,
      \<lparr>cb_conn = sample_conn, callback_time = 60000, cb_io_loop = 0, running = True\<rparr>] \<and>
   n_event (last (events (snd (touch armed)))) = TOUCH \<and>
   n_kwargs (last (events (snd (touch armed)))) = [(''message'', PyMessage)] \<and>
   timers (snd (touch fresh)) = [] \<and>
   n_event (last (events (snd (touch fresh)))) = TOUCH \<and>
   conn (msg (snd (run [SetTimeout (Some sample_conn), Fire 0] fresh))) \<noteq> None"
proof -
  have a: "\<not> u_has_responded (msg armed)" "timeout (msg armed) = Some 0"
    "conn (msg armed) = Some sample_conn"
    by code_simp+
  have ts: "timers armed =
      [\<lparr>cb_conn = sample_conn, callback_time = 60000, cb_io_loop = 0, running = True\<rparr>]"
    by (simp add: armed_eq)
  have f: "\<not> u_has_responded (msg fresh)" "timeout (msg fresh) = None" "timers fresh = []"
    by code_simp+
  note t = touch_effects [of armed "[SetTimeout (Some sample_conn), Fire 0]"
    "''0a1b2c3d4e5f6071''" "''payload''" 1500000000 1 0 sample_conn]
  have "timeout (msg (snd (run [SetTimeout (Some sample_conn), Fire 0] fresh))) \<noteq> None"
    by code_simp
  with t have 5: "conn (msg (snd (run [SetTimeout (Some sample_conn), Fire 0] fresh))) \<noteq> None"
    by (simp add: fresh_def)
  from t have 1: "fst (touch finished) = Raised AssertionError"
    by (simp only: finished_def)
  from t a(1) have 2: "fst (finish (snd (touch armed))) = Returned ()"
    by blast
  from t a have "touch armed =
      (Returned (),
       \<lparr>msg = (msg armed)\<lparr>timeout := Some (length (timers armed))\<rparr>,
        timers = stop 0 (timers armed) @
          [\<lparr>cb_conn = sample_conn, callback_time = msg_timeout sample_conn,
            cb_io_loop = io_loop sample_conn, running = True\<rparr>],
        events = events armed @
          [\<lparr>n_target = OnMessage, n_event = TOUCH, n_kwargs = [(''message'', PyMessage)],
            n_msg = (msg armed)\<lparr>timeout := Some (length (timers armed))\<rparr>,
            n_timers = stop 0 (timers armed) @
              [\<lparr>cb_conn = sample_conn, callback_time = msg_timeout sample_conn,
                cb_io_loop = io_loop sample_conn, running = True\<rparr>]\<rparr>]\<rparr>)"
    by blast
  then have 3: "fst (touch armed) = Returned ()"
    "timeout (msg (snd (touch armed))) = Some 1"
    "timers (snd (touch armed)) =
       [\<lparr>cb_conn = sample_conn, callback_time = 60000, cb_io_loop = 0, running = False\<rparr>,
        \<lparr>cb_conn = sample_conn, callback_time = 60000, cb_io_loop = 0, running = True\<rparr>]"
    "n_event (last (events (snd (touch armed)))) = TOUCH"
    "n_kwargs (last (events (snd (touch armed)))) = [(''message'', PyMessage)]"
    by (simp_all add: ts stop_def) (simp_all add: sample_conn_def)
  from touch_effects [of fresh "[]" "[]" "[]" 0 0] f(1,2) have "touch fresh =
      (Returned (),
       fresh\<lparr>events := events fresh @
         [\<lparr>n_target = OnMessage, n_event = TOUCH, n_kwargs = [(''message'', PyMessage)],
           n_msg = msg fresh, n_timers = timers fresh\<rparr>]\<rparr>)"
    by blast
  then have 4: "timers (snd (touch fresh)) = []"
    "n_event (last (events (snd (touch fresh)))) = TOUCH"
    by (simp_all add: f(3))
  from 1 2 3 4 5 show ?thesis by blast
qed

section \<open>The timer fires once per arm\<close>

lemma held_runs:
  "only_held_runs w \<Longrightarrow> is_running a (timers w) \<Longrightarrow> timeout (msg w) = Some a"
  by (simp add: only_held_runs_def)

lemma new_world_only_held: "only_held_runs (new_world m)"
  by (simp add: only_held_runs_def new_world_def is_running_def)

lemma set_timeout_only_held: "only_held_runs w \<Longrightarrow> only_held_runs (snd (u_set_timeout ac w))"
  by (cases ac) (auto simp: only_held_runs_def u_set_timeout_def u_clear_timeout_def Let_def
      is_running_stop length_stop start_fresh is_running_append split: option.splits)

lemma fire_running:
  "only_held_runs w \<Longrightarrow> is_running a (timers w) \<Longrightarrow>
   fire a w =
     (Returned (),
      w\<lparr>timers := stop a (timers w),
        events := events w @
          [\<lparr>n_target = OnConn (cb_conn (timers w ! a)), n_event = MESSAGE_TIMEOUT,
            n_kwargs = [(''conn'', PyMessage), (''message'', PyMessage)],
            n_msg = msg w, n_timers = timers w\<rparr>]\<rparr>)"
  by (frule (1) held_runs)
     (simp add: fire_def callback_def trigger_def u_clear_timeout_def Let_def)

lemma fire_not_running: "\<not> is_running a (timers w) \<Longrightarrow> fire a w = (Returned (), w)"
  by (simp add: fire_def)

lemma stop_only_held:
  "only_held_runs w \<Longrightarrow> is_running a (timers w) \<Longrightarrow> \<not> is_running b (stop a (timers w))"
proof
  assume inv: "only_held_runs w" and a: "is_running a (timers w)"
    and b: "is_running b (stop a (timers w))"
  from b have "b \<noteq> a" and "is_running b (timers w)" by (simp_all add: is_running_stop)
  with held_runs [OF inv a] held_runs [OF inv, of b] show False by simp
qed

lemma fire_only_held: "only_held_runs w \<Longrightarrow> only_held_runs (snd (fire a w))"
proof (cases "is_running a (timers w)")
  case True
  assume inv: "only_held_runs w"
  from stop_only_held [OF inv True] show ?thesis
    by (simp add: fire_running [OF inv True] only_held_runs_def)
next
  case False
  assume "only_held_runs w"
  with False show ?thesis by (simp add: fire_not_running)
qed

lemma step_only_held: "only_held_runs w \<Longrightarrow> only_held_runs (snd (step c w))"
proof (cases c)
  case (SetTimeout ac)
  assume "only_held_runs w"
  then have "only_held_runs (snd (u_set_timeout ac w))" by (rule set_timeout_only_held)
  with SetTimeout show ?thesis
    by (cases "u_set_timeout ac w"; cases "fst (u_set_timeout ac w)") (auto simp: returning_def)
next
  case Touch
  assume h: "only_held_runs w"
  then have "only_held_runs (snd (u_set_timeout (conn (msg w)) w))"
    by (rule set_timeout_only_held)
  with h Touch show ?thesis
    by (cases "u_set_timeout (conn (msg w)) w"; cases "fst (u_set_timeout (conn (msg w)) w)")
       (auto simp: returning_def touch_def trigger_def only_held_runs_def split: option.splits)
next
  case (Fire a)
  assume "only_held_runs w"
  then have "only_held_runs (snd (fire a w))" by (rule fire_only_held)
  with Fire show ?thesis
    by (cases "fire a w"; cases "fst (fire a w)") (auto simp: returning_def)
qed (auto simp: only_held_runs_def method_defs Let_def is_running_stop split: option.splits)

lemma run_only_held: "only_held_runs w \<Longrightarrow> only_held_runs (snd (run cs w))"
  by (induction cs arbitrary: w) (simp_all add: run_Cons step_only_held)

text \<open>
  The count of \<^verbatim>\<open>MESSAGE_TIMEOUT\<close> notifications plus the firings still pending never
  grows under a call that does not arm the timer again.
\<close>

lemma fire_potential:
  "only_held_runs w \<Longrightarrow>
   timeouts (snd (fire a w)) + pending (snd (fire a w)) \<le> timeouts w + pending w"
proof (cases "is_running a (timers w)")
  case True
  assume inv: "only_held_runs w"
  from held_runs [OF inv True] True show ?thesis
    by (simp add: fire_running [OF inv True] timeouts_def pending_def is_running_stop)
next
  case False
  then show ?thesis by (simp add: fire_not_running)
qed

lemma step_potential:
  "only_held_runs w \<Longrightarrow> \<not> rearms c \<Longrightarrow>
   timeouts (snd (step c w)) + pending (snd (step c w)) \<le> timeouts w + pending w"
proof (cases c)
  case (Fire a)
  assume "only_held_runs w"
  then have "timeouts (snd (fire a w)) + pending (snd (fire a w)) \<le> timeouts w + pending w"
    by (rule fire_potential)
  with Fire show ?thesis
    by (cases "fire a w"; cases "fst (fire a w)") (auto simp: returning_def)
qed (auto simp: pending_def timeouts_def method_defs Let_def is_running_stop
       split: option.splits)

lemma run_potential:
  "only_held_runs w \<Longrightarrow> \<forall>c \<in> set cs. \<not> rearms c \<Longrightarrow>
   timeouts (snd (run cs w)) + pending (snd (run cs w)) \<le> timeouts w + pending w"
proof (induction cs arbitrary: w)
  case Nil
  show ?case by simp
next
  case (Cons c cs)
  have "timeouts (snd (run cs (snd (step c w)))) + pending (snd (run cs (snd (step c w))))
        \<le> timeouts (snd (step c w)) + pending (snd (step c w))"
    using Cons.prems by (intro Cons.IH) (simp_all add: step_only_held)
  also have "\<dots> \<le> timeouts w + pending w"
    using Cons.prems by (intro step_potential) simp_all
  finally show ?case by (simp add: run_Cons)
qed

lemma pending_le: "pending w \<le> 1"
  by (simp add: pending_def split: option.splits)

text \<open>
  C5. Take a message in any state it can reach from construction (\<open>w0\<close>), and arm its
  timeout with \<^verbatim>\<open>_set_timeout\<close> (\<open>w1\<close>; the new timer is at address \<open>a\<close>). The timer is
  then running. Its firing triggers one \<^verbatim>\<open>MESSAGE_TIMEOUT\<close> and clears the timer: no timer
  of the message is running afterwards, and another firing of any of them runs no
  callback and changes nothing. Over any sequence of calls and firings after the arm
  that contains neither \<^verbatim>\<open>_set_timeout\<close> nor \<^verbatim>\<open>touch\<close>, at most one \<^verbatim>\<open>MESSAGE_TIMEOUT\<close> is
  triggered.
\<close>

theorem single_shot_per_arm:
  assumes "w0 = snd (run pre (new_world m))"
    and "w1 = snd (u_set_timeout (Some c0) w0)"
    and "a = length (timers w0)"
  shows "timeout (msg w1) = Some a \<and> is_running a (timers w1) \<and>
     timeouts (snd (fire a w1)) = timeouts w1 + 1 \<and>
     (\<forall>b. \<not> is_running b (timers (snd (fire a w1)))) \<and>
     (\<forall>b. fire b (snd (fire a w1)) = (Returned (), snd (fire a w1))) \<and>
     ((\<forall>c \<in> set cs. \<not> rearms c) \<longrightarrow> timeouts (snd (run cs w1)) \<le> timeouts w1 + 1)"
proof -
  have "only_held_runs w0"
    unfolding assms(1) by (intro run_only_held new_world_only_held)
  then have inv: "only_held_runs w1"
    unfolding assms(2) by (rule set_timeout_only_held)
  have held: "timeout (msg w1) = Some a"
    by (simp add: assms(2,3) set_timeout_Some)
  have running: "is_running a (timers w1)"
    by (simp add: assms(2,3) set_timeout_Some is_running_append length_stop
        split: option.splits)
  note fired = fire_running [OF inv running]
  have once: "timeouts (snd (fire a w1)) = timeouts w1 + 1"
    by (simp add: fired timeouts_def)
  have cleared: "\<not> is_running b (timers (snd (fire a w1)))" for b
    using stop_only_held [OF inv running, of b] by (simp add: fired)
  then have again: "fire b (snd (fire a w1)) = (Returned (), snd (fire a w1))" for b
    by (simp add: fire_not_running)
  have bound: "timeouts (snd (run cs w1)) \<le> timeouts w1 + 1"
    if h: "\<forall>c \<in> set cs. \<not> rearms c"
  proof -
    from inv h
    have "timeouts (snd (run cs w1)) + pending (snd (run cs w1)) \<le> timeouts w1 + pending w1"
      by (rule run_potential)
    with pending_le [of w1] show ?thesis by linarith
  qed
  from held running once cleared again bound show ?thesis by blast
qed

theorem single_shot_per_arm_witness:
  "timeout (msg armed) = Some 0 \<and> is_running 0 (timers armed) \<and>
   timeouts armed = 0 \<and> timeouts (snd (fire 0 armed)) = 1 \<and>
   \<not> is_running 0 (timers (snd (fire 0 armed))) \<and>
   fire 0 (snd (fire 0 armed)) = (Returned (), snd (fire 0 armed)) \<and>
   timeouts (snd (run [Fire 0, Fire 0, IsAlive, Fire 0, Finish, Fire 0] armed)) \<le> 1 \<and>
   timeouts (snd (run [Fire 0, Touch, Fire 1] armed)) = 2"
proof -
  have w1: "armed = snd (u_set_timeout (Some sample_conn) fresh)" by (simp add: armed_def)
  have a: "0 = length (timers fresh)" by code_simp
  have m: "fresh = snd (run [] (new_world (Message_init ''0a1b2c3d4e5f6071'' ''payload''
      1500000000 1)))"
    by (simp add: fresh_def)
  have z: "timeouts armed = 0" by code_simp
  have r: "\<forall>c \<in> set [Fire 0, Fire 0, IsAlive, Fire 0, Finish, Fire 0]. \<not> rearms c" by simp
  have t: "timeouts (snd (run [Fire 0, Touch, Fire 1] armed)) = 2" by code_simp
  from single_shot_per_arm
    [OF m w1 a, of "[Fire 0, Fire 0, IsAlive, Fire 0, Finish, Fire 0]"] r z t
  show ?thesis by simp
qed

section \<open>The context of the timeout notification\<close>

text \<open>
  C4. The firing of the armed timer of the sample message: \<^verbatim>\<open>MESSAGE_TIMEOUT\<close> is triggered
  on the connection, and the context is \<^verbatim>\<open>conn=self, message=self\<close> with \<^verbatim>\<open>self\<close> the
  message: the entry \<^verbatim>\<open>conn\<close> holds the message, and the connection is no value of the
  context.
\<close>

theorem message_timeout_context:
  "fst (fire 0 armed) = Returned () \<and>
   length (events (snd (fire 0 armed))) = 1 \<and>
   n_target (last (events (snd (fire 0 armed)))) = OnConn sample_conn \<and>
   n_event (last (events (snd (fire 0 armed)))) = MESSAGE_TIMEOUT \<and>
   n_kwargs (last (events (snd (fire 0 armed)))) =
     [(''conn'', PyMessage), (''message'', PyMessage)] \<and>
   map_of (n_kwargs (last (events (snd (fire 0 armed))))) ''conn'' \<noteq> Some (PyConn sample_conn) \<and>
   PyConn sample_conn \<notin> snd ` set (n_kwargs (last (events (snd (fire 0 armed)))))"
  by code_simp

end
